theory Spec2Isabelle
  imports Complex_Main
begin

section \<open>Game Tracker: a model of main.py\<close>

text \<open>
  The program is one Python class, \<^verbatim>\<open>GameTracker\<close>. Its fields become a record, each
  method a function from the old state to the new one, and everything a method reads from
  outside (the foreground window's title, \<^verbatim>\<open>time.time()\<close>, \<^verbatim>\<open>time.strftime\<close>, the
  content of the data file, whether a write succeeds) is an argument. Console output and
  file writes are collected, in order, in the field \<open>out\<close>.

  Two idealisations are made throughout. Python's floats are modelled as real numbers, so
  rounding, infinities and NaN are not represented. The leaf values of the data file are
  taken to be numbers; what the loader does with a leaf of another JSON type (it stores the
  value as it is) is outside the model.
\<close>

subsection \<open>Strings\<close>

text \<open>
  A Python \<^verbatim>\<open>str\<close> is a sequence of Unicode code points, so a title is a list of code
  points; \<open>str\<close> turns a literal of ASCII characters into one.
\<close>

type_synonym pystr = "nat list"

definition str :: "string \<Rightarrow> pystr" where
  "str s = map of_char s"

text \<open>
  \<^verbatim>\<open>str.lower()\<close> and \<^verbatim>\<open>str.upper()\<close> apply Unicode's case mappings code point by code
  point; one code point may map to several. The tables below are those of Basic Latin
  (U+0000 to U+007F), together with the upper-case mappings of U+0131 (dotless i, to I) and
  U+017F (long s, to S), both of which are lower-case letters that \<^verbatim>\<open>lower()\<close> leaves
  alone. Every other code point is returned unchanged, which is not what CPython does for
  all of them: the tables are exact on the code points named here, and the statements that
  evaluate them stay within these.
\<close>

definition lower_cp :: "nat \<Rightarrow> pystr" where
  "lower_cp c = (if 65 \<le> c \<and> c \<le> 90 then [c + 32] else [c])"

definition upper_cp :: "nat \<Rightarrow> pystr" where
  "upper_cp c =
     (if 97 \<le> c \<and> c \<le> 122 then [c - 32]
      else if c = 305 then [73]
      else if c = 383 then [83]
      else [c])"

definition py_lower :: "pystr \<Rightarrow> pystr" where
  "py_lower s = concat (map lower_cp s)"

definition py_upper :: "pystr \<Rightarrow> pystr" where
  "py_upper s = concat (map upper_cp s)"


text \<open>\<^verbatim>\<open>s.startswith(k)\<close> and the substring test \<^verbatim>\<open>k in s\<close>.\<close>

fun startswith :: "pystr \<Rightarrow> pystr \<Rightarrow> bool" where
  "startswith s [] = True"
| "startswith [] (k # ks) = False"
| "startswith (c # cs) (k # ks) = (c = k \<and> startswith cs ks)"

fun contains :: "pystr \<Rightarrow> pystr \<Rightarrow> bool" where
  "contains k [] = (k = [])"
| "contains k (c # cs) = (startswith (c # cs) k \<or> contains k cs)"

subsection \<open>The classifier\<close>

text \<open>Lines 15 to 21: the keyword set, listed in the order of the source.\<close>

definition game_keywords :: "pystr list" where
  "game_keywords = map str
     [''steam'', ''hl2'', ''csgo'', ''dota'', ''fortnite'',
      ''overwatch'', ''valorant'', ''league'', ''minecraft'',
      ''battle.net'', ''origin'', ''ubisoft'', ''riot'', ''ea'',
      ''wow'', ''diablo'', ''elden'', ''gta'', ''rockstar'',
      ''warframe'', ''destiny'', ''apex'', ''fallout'', ''skyrim'']"

text \<open>
  Lines 56 to 61. \<^verbatim>\<open>not window_title\<close> is true of \<^verbatim>\<open>None\<close> and of the empty string.
\<close>

definition is_game :: "pystr option \<Rightarrow> bool" where
  "is_game window_title =
     (case window_title of
        None \<Rightarrow> False
      | Some title \<Rightarrow>
          if title = [] then False
          else (let window_lower = py_lower title
                in list_ex (\<lambda>keyword. contains keyword window_lower) game_keywords))"

subsection \<open>The usage store\<close>

text \<open>
  \<^verbatim>\<open>self.usage\<close> is a \<^verbatim>\<open>defaultdict\<close> of \<^verbatim>\<open>defaultdict(float)\<close>: date, then title, then
  seconds. A Python dictionary keeps its keys in insertion order, and \<^verbatim>\<open>json.dump\<close>
  writes them in that order, so both levels are association lists.
\<close>

type_synonym games = "(pystr \<times> real) list"

type_synonym usage_store = "(pystr \<times> games) list"

text \<open>\<^verbatim>\<open>d[k] = v\<close>: an existing key keeps its place, a new one goes last.\<close>

fun dict_set :: "'k \<Rightarrow> 'v \<Rightarrow> ('k \<times> 'v) list \<Rightarrow> ('k \<times> 'v) list" where
  "dict_set k v [] = [(k, v)]"
| "dict_set k v ((k', v') # d) =
     (if k' = k then (k', v) # d else (k', v') # dict_set k v d)"

text \<open>
  \<^verbatim>\<open>self.usage[date]\<close> on a missing date makes an empty inner dictionary and stores it
  under the date; \<^verbatim>\<open>inner[game]\<close> on a missing title reads as \<^verbatim>\<open>0.0\<close>.
\<close>

definition games_of :: "usage_store \<Rightarrow> pystr \<Rightarrow> games" where
  "games_of u date = (case map_of u date of None \<Rightarrow> [] | Some g \<Rightarrow> g)"

definition seconds_of :: "games \<Rightarrow> pystr \<Rightarrow> real" where
  "seconds_of g game = (case map_of g game of None \<Rightarrow> 0 | Some v \<Rightarrow> v)"

text \<open>Line 31, \<^verbatim>\<open>self.usage[date][game] = duration\<close>.\<close>

definition set_leaf :: "pystr \<Rightarrow> pystr \<Rightarrow> real \<Rightarrow> usage_store \<Rightarrow> usage_store" where
  "set_leaf date game duration u =
     dict_set date (dict_set game duration (games_of u date)) u"

text \<open>Line 107, \<^verbatim>\<open>self.usage[date][game] += duration\<close>.\<close>

definition add_leaf :: "pystr \<Rightarrow> pystr \<Rightarrow> real \<Rightarrow> usage_store \<Rightarrow> usage_store" where
  "add_leaf date game duration u =
     (let inner = games_of u date
      in dict_set date (dict_set game (seconds_of inner game + duration) inner) u)"

text \<open>What a reader of the store sees at a date and a title, if anything.\<close>

definition leaf :: "usage_store \<Rightarrow> pystr \<Rightarrow> pystr \<Rightarrow> real option" where
  "leaf u date game = (case map_of u date of None \<Rightarrow> None | Some g \<Rightarrow> map_of g game)"

subsection \<open>The data file\<close>

text \<open>
  What \<^verbatim>\<open>load_data\<close> can find. \<^verbatim>\<open>json.load\<close> itself is the library's: the model starts
  from its outcome. A decoded document is a JSON object or some other JSON value; the value
  under a date is a JSON object (of titles and numbers) or a value with no \<^verbatim>\<open>items()\<close>,
  such as a number, a string or an array.
\<close>

datatype jentry = Games games | NoItems

datatype jdoc = Object "(pystr \<times> jentry) list" | NonObject

datatype backing =
    Missing
  | Unreadable
  | Undecodable
  | Decoded jdoc

text \<open>
  The exceptions of the \<^verbatim>\<open>try\<close> block of \<^verbatim>\<open>load_data\<close>: \<^verbatim>\<open>open\<close> or the read fails,
  \<^verbatim>\<open>json.load\<close> rejects the text, or \<^verbatim>\<open>items()\<close> is called on a value that has none.
\<close>

datatype exn = OSError | JSONDecodeError | AttributeError

text \<open>What the program prints, and what it writes to the data file.\<close>

datatype message =
    CorruptedStartingFresh
  | ErrorLoading exn
  | FailedToSave
  | TrackerStarted
  | DetectingGames
  | Tracking pystr
  | StoppedTracking pystr real
  | Statistics usage_store
  | TrackerStopped

datatype event = Print message | Write jdoc

text \<open>The fields of \<^verbatim>\<open>GameTracker\<close> (lines 8 to 11), and the output so far.\<close>

record tracker =
  current_game :: "pystr option"
  start_time :: "real option"
  usage :: usage_store
  out :: "event list"

text \<open>Lines 29 to 31: the two loops of \<^verbatim>\<open>load_data\<close>, which assign as they go.\<close>

fun load_games :: "pystr \<Rightarrow> games \<Rightarrow> usage_store \<Rightarrow> usage_store" where
  "load_games date [] u = u"
| "load_games date ((game, duration) # rest) u =
     load_games date rest (set_leaf date game duration u)"

fun load_items :: "(pystr \<times> jentry) list \<Rightarrow> usage_store \<Rightarrow> exn option \<times> usage_store" where
  "load_items [] u = (None, u)"
| "load_items ((date, Games g) # rest) u = load_items rest (load_games date g u)"
| "load_items ((date, NoItems) # rest) u = (Some AttributeError, u)"

text \<open>
  Lines 27 to 31, the body of the \<^verbatim>\<open>try\<close>: the exception it ends with, if any, and the
  store as the body left it.
\<close>

fun load_body :: "backing \<Rightarrow> usage_store \<Rightarrow> exn option \<times> usage_store" where
  "load_body Missing u = (None, u)"
| "load_body Unreadable u = (Some OSError, u)"
| "load_body Undecodable u = (Some JSONDecodeError, u)"
| "load_body (Decoded NonObject) u = (Some AttributeError, u)"
| "load_body (Decoded (Object items)) u = load_items items u"

text \<open>
  Lines 23 to 35. The first handler takes \<^verbatim>\<open>JSONDecodeError\<close>, the second every other
  exception of the body, so none leaves \<^verbatim>\<open>load_data\<close>: the result is a state.
\<close>

definition load_data :: "backing \<Rightarrow> tracker \<Rightarrow> tracker" where
  "load_data file st =
     (if file = Missing then st
      else
        (case load_body file (usage st) of
           (None, u) \<Rightarrow> st\<lparr>usage := u\<rparr>
         | (Some e, u) \<Rightarrow>
             if e = JSONDecodeError
             then st\<lparr>usage := u, out := out st @ [Print CorruptedStartingFresh]\<rparr>
             else st\<lparr>usage := u, out := out st @ [Print (ErrorLoading e)]\<rparr>))"

text \<open>Lines 7 to 12: \<^verbatim>\<open>__init__\<close> sets the fields and loads the data file.\<close>

definition fresh :: tracker where
  "fresh = \<lparr>current_game = None, start_time = None, usage = [], out = []\<rparr>"

definition init :: "backing \<Rightarrow> tracker" where
  "init file = load_data file fresh"

text \<open>
  Lines 37 to 43. \<^verbatim>\<open>json.dump\<close> writes the store as an object of objects of numbers;
  \<open>io_ok\<close> says whether opening and writing the file succeeded.
\<close>

definition dump :: "usage_store \<Rightarrow> jdoc" where
  "dump u = Object (map (\<lambda>(date, g). (date, Games g)) u)"

definition save_data :: "bool \<Rightarrow> tracker \<Rightarrow> tracker" where
  "save_data io_ok st =
     (if io_ok then st\<lparr>out := out st @ [Write (dump (usage st))]\<rparr>
      else st\<lparr>out := out st @ [Print FailedToSave]\<rparr>)"

text \<open>
  A flush is one call of \<^verbatim>\<open>save_data\<close>; each call leaves exactly one event, the
  document written or the failure message.
\<close>

fun is_flush :: "event \<Rightarrow> bool" where
  "is_flush (Write d) = True"
| "is_flush (Print m) = (m = FailedToSave)"

definition flushes :: "event list \<Rightarrow> nat" where
  "flushes es = length (filter is_flush es)"

subsection \<open>Sessions\<close>

text \<open>
  Lines 104 to 107. \<open>today\<close> is what \<^verbatim>\<open>time.strftime("%Y-%m-%d")\<close> returns when
  \<^verbatim>\<open>record_session\<close> runs.
\<close>

definition record_session :: "pystr \<Rightarrow> pystr \<Rightarrow> real \<Rightarrow> tracker \<Rightarrow> tracker" where
  "record_session today game duration st =
     st\<lparr>usage := add_leaf today game duration (usage st)\<rparr>"

text \<open>
  The guard \<^verbatim>\<open>self.current_game and self.start_time\<close> of lines 77, 87 and 127: both
  fields are set, the title is not the empty string and the start is not \<^verbatim>\<open>0.0\<close>.
\<close>

definition open_session :: "tracker \<Rightarrow> (pystr \<times> real) option" where
  "open_session st =
     (case current_game st of
        None \<Rightarrow> None
      | Some game \<Rightarrow>
          if game = [] then None
          else (case start_time st of
                  None \<Rightarrow> None
                | Some start \<Rightarrow> if start = 0 then None else Some (game, start)))"

text \<open>
  Lines 74 to 92, the session logic of one pass of the loop. \<open>current_window\<close> is what
  \<^verbatim>\<open>get_active_window\<close> returned (\<^verbatim>\<open>None\<close> when the query failed), \<open>now\<close> is
  \<^verbatim>\<open>time.time()\<close>.
\<close>

definition poll :: "pystr option \<Rightarrow> real \<Rightarrow> pystr \<Rightarrow> tracker \<Rightarrow> tracker" where
  "poll current_window now today st =
     (if is_game current_window then
        (if current_window \<noteq> current_game st then
           (let st1 = (case open_session st of
                         Some (game, start) \<Rightarrow> record_session today game (now - start) st
                       | None \<Rightarrow> st)
            in st1\<lparr>current_game := current_window,
                   start_time := Some now,
                   out := out st1 @ [Print (Tracking (case current_window of Some w \<Rightarrow> w | None \<Rightarrow> []))]\<rparr>)
         else st)
      else
        (case open_session st of
           Some (game, start) \<Rightarrow>
             (let duration = now - start;
                  st1 = record_session today game duration st
              in st1\<lparr>out := out st1 @ [Print (StoppedTracking game duration)],
                     current_game := None,
                     start_time := None\<rparr>)
         | None \<Rightarrow> st))"

text \<open>
  One pass of the loop, lines 71 to 97: the observation, the session logic, and the
  automatic save when more than 300 seconds have passed since the last one. \<open>last_save\<close>
  is the local variable of \<^verbatim>\<open>track\<close>.
\<close>

record observation =
  o_window :: "pystr option"
  o_now :: real
  o_today :: pystr
  o_io_ok :: bool

definition iteration :: "observation \<Rightarrow> tracker \<times> real \<Rightarrow> tracker \<times> real" where
  "iteration ob loop =
     (case loop of
        (st, last_save) \<Rightarrow>
          (let st1 = poll (o_window ob) (o_now ob) (o_today ob) st
           in if o_now ob - last_save > 300
              then (save_data (o_io_ok ob) st1, o_now ob)
              else (st1, last_save)))"

text \<open>
  Lines 125 to 131. \<open>now\<close> is the \<^verbatim>\<open>time.time()\<close> of line 128. The report of
  \<^verbatim>\<open>show_stats\<close> is kept as one event that holds the store it prints.
\<close>

definition shutdown :: "real \<Rightarrow> pystr \<Rightarrow> bool \<Rightarrow> tracker \<Rightarrow> tracker" where
  "shutdown now today io_ok st =
     (let st1 = (case open_session st of
                   Some (game, start) \<Rightarrow> record_session today game (now - start) st
                 | None \<Rightarrow> st);
          st2 = save_data io_ok st1
      in st2\<lparr>out := out st2 @ [Print (Statistics (usage st2)), Print TrackerStopped]\<rparr>)"

text \<open>
  Lines 63 to 102. The loop has no exit of its own: it runs until \<^verbatim>\<open>KeyboardInterrupt\<close>,
  which is taken to arrive between two passes (the loop sleeps there for 15 seconds). A run
  is then the time of line 67, the observations of the passes completed, and what
  \<^verbatim>\<open>shutdown\<close> reads.
\<close>

definition track :: "real \<Rightarrow> observation list \<Rightarrow> observation \<Rightarrow> tracker \<Rightarrow> tracker" where
  "track started obs final st =
     (let st0 = st\<lparr>out := out st @ [Print TrackerStarted, Print DetectingGames]\<rparr>;
          loop = foldl (\<lambda>l ob. iteration ob l) (st0, started) obs
      in shutdown (o_now final) (o_today final) (o_io_ok final) (fst loop))"

subsection \<open>The transition table of the specification\<close>

text \<open>
  The states and the table of section 4.2 of the specification, written from its words:
  the session after a tick, and the title and duration the tick records, if any.
\<close>

datatype session = Idle | Active pystr real


text \<open>The session a state of the program holds: both fields set, or none.\<close>

definition session_of :: "tracker \<Rightarrow> session" where
  "session_of st =
     (case (current_game st, start_time st) of
        (Some t, Some s) \<Rightarrow> Active t s
      | _ \<Rightarrow> Idle)"


subsection \<open>Predicates on stores and documents\<close>

text \<open>Every duration of the store is at least zero.\<close>

definition nonneg :: "usage_store \<Rightarrow> bool" where
  "nonneg u = list_all (\<lambda>(date, g). list_all (\<lambda>(game, v). 0 \<le> v) g) u"

text \<open>
  A list that stands for a Python dictionary of dictionaries: no date twice, and no title
  twice under one date.
\<close>

definition well_formed :: "usage_store \<Rightarrow> bool" where
  "well_formed d = (distinct (map fst d) \<and> list_all (\<lambda>(date, g). distinct (map fst g)) d)"

text \<open>The (date, title, seconds) entries of a store or of a document.\<close>

definition entries :: "usage_store \<Rightarrow> (pystr \<times> pystr \<times> real) list" where
  "entries d = concat (map (\<lambda>(date, g). map (\<lambda>(game, v). (date, game, v)) g) d)"

text \<open>The members \<^verbatim>\<open>json.dump\<close> writes for a store: \<open>dump d\<close> is the object of these.\<close>

definition json_of :: "usage_store \<Rightarrow> (pystr \<times> jentry) list" where
  "json_of d = map (\<lambda>(date, g). (date, Games g)) d"

subsection \<open>Example inputs\<close>


text \<open>Sessions opened from the initial state by one tick, at 1000 and at the epoch.\<close>

definition steam_session :: tracker where
  "steam_session = poll (Some (str ''Steam'')) 1000 (str ''2024-01-01'') fresh"

definition valorant_session :: tracker where
  "valorant_session = poll (Some (str ''Valorant'')) 1000 (str ''2024-01-01'') fresh"

definition valorant_epoch_session :: tracker where
  "valorant_epoch_session = poll (Some (str ''Valorant'')) 0 (str ''2024-01-01'') fresh"

text \<open>An observation on 2024-01-01, with a data file that can be written.\<close>

definition seen :: "pystr option \<Rightarrow> real \<Rightarrow> observation" where
  "seen w t = \<lparr>o_window = w, o_now = t, o_today = str ''2024-01-01'', o_io_ok = True\<rparr>"

text \<open>
  Contents of a data file: one leaf; a second date with no title under it; and a document
  whose second date holds a number where the titles should be.
\<close>

definition dota_store :: usage_store where
  "dota_store = [(str ''2024-01-01'', [(str ''Dota 2'', 120)])]"

definition sparse_store :: usage_store where
  "sparse_store = [(str ''2024-01-01'', [(str ''Dota 2'', 120), (str ''Steam'', 30)]),
                   (str ''2024-01-02'', [])]"


section \<open>Properties\<close>

subsection \<open>Substrings and case\<close>

lemma startswith_iff: "startswith s k \<longleftrightarrow> (\<exists>suf. s = k @ suf)"
  by (induction s k rule: startswith.induct) auto

lemma contains_iff: "contains k s \<longleftrightarrow> (\<exists>pre suf. s = pre @ k @ suf)"
proof (induction s)
  case Nil
  then show ?case by auto
next
  case (Cons c cs)
  show ?case
  proof
    assume "contains k (c # cs)"
    then consider "startswith (c # cs) k" | "contains k cs" by auto
    then show "\<exists>pre suf. c # cs = pre @ k @ suf"
    proof cases
      case 1
      then obtain suf where "c # cs = k @ suf" by (auto simp: startswith_iff)
      then have "c # cs = [] @ k @ suf" by simp
      then show ?thesis by blast
    next
      case 2
      then obtain pre suf where "cs = pre @ k @ suf" using Cons.IH by auto
      then have "c # cs = (c # pre) @ k @ suf" by simp
      then show ?thesis by blast
    qed
  next
    assume "\<exists>pre suf. c # cs = pre @ k @ suf"
    then obtain pre suf where e: "c # cs = pre @ k @ suf" by blast
    show "contains k (c # cs)"
    proof (cases pre)
      case Nil
      with e have "startswith (c # cs) k" by (auto simp: startswith_iff)
      then show ?thesis by simp
    next
      case (Cons p ps)
      with e have "cs = ps @ k @ suf" by simp
      then have "contains k cs" using Cons.IH by blast
      then show ?thesis by simp
    qed
  qed
qed

lemma keywords_nonempty: "k \<in> set game_keywords \<Longrightarrow> k \<noteq> []"
  by (auto simp: game_keywords_def str_def)

lemma is_game_Some:
  "is_game (Some title) =
     (\<exists>keyword pre suf. keyword \<in> set game_keywords \<and> py_lower title = pre @ keyword @ suf)"
proof (cases "title = []")
  case True
  then show ?thesis
    using keywords_nonempty by (auto simp: is_game_def py_lower_def)
next
  case False
  then show ?thesis
    by (auto simp: is_game_def list_ex_iff contains_iff)
qed


lemma lower_cp_idem: "concat (map lower_cp (lower_cp c)) = lower_cp c"
  by (simp add: lower_cp_def)

lemma py_lower_idem: "py_lower (py_lower s) = py_lower s"
  by (induction s) (simp_all add: py_lower_def lower_cp_idem)



lemma py_lower_Nil: "py_lower s = [] \<longleftrightarrow> s = []"
  by (cases s) (auto simp: py_lower_def lower_cp_def)

lemma py_upper_Nil: "py_upper s = [] \<longleftrightarrow> s = []"
  by (cases s) (auto simp: py_upper_def upper_cp_def)

lemma is_game_lower: "is_game (Some (py_lower s)) = is_game (Some s)"
  by (simp add: is_game_Some py_lower_idem)




subsection \<open>The store\<close>

lemma map_of_dict_set: "map_of (dict_set k v d) = (map_of d)(k \<mapsto> v)"
  by (induction d) (auto simp: fun_eq_iff)

lemma leaf_set_leaf:
  "leaf (set_leaf date game v u) d g =
     (if d = date \<and> g = game then Some v else leaf u d g)"
  by (auto simp: leaf_def set_leaf_def games_of_def map_of_dict_set split: option.splits)

lemma leaf_add_leaf:
  "leaf (add_leaf date game x u) d g =
     (if d = date \<and> g = game
      then Some ((case leaf u date game of None \<Rightarrow> 0 | Some v \<Rightarrow> v) + x)
      else leaf u d g)"
  by (auto simp: leaf_def add_leaf_def games_of_def seconds_of_def Let_def map_of_dict_set
      split: option.splits)

text \<open>
  Claim C2. \<open>record_session\<close> adds the duration to what the store holds for today's date
  and the title (zero when it holds nothing) and leaves every other leaf alone, so two
  sessions of one title on one day sum. The date is the one read when \<open>record_session\<close>
  runs: the state keeps no date of the session's start, and when a tick closes an open
  session its whole duration goes to the date of that tick, whatever the date was when the
  session began.
\<close>

theorem record_session_adds:
  "leaf (usage (record_session today title duration st)) date game =
     (if date = today \<and> game = title
      then Some ((case leaf (usage st) today title of None \<Rightarrow> 0 | Some v \<Rightarrow> v) + duration)
      else leaf (usage st) date game) \<and>
   leaf (usage (record_session today title d2 (record_session today title d1 st))) today title =
     Some ((case leaf (usage st) today title of None \<Rightarrow> 0 | Some v \<Rightarrow> v) + d1 + d2) \<and>
   (open_session st = Some (title, start) \<longrightarrow> \<not> is_game w \<longrightarrow>
      leaf (usage (poll w now today st)) date game =
        (if date = today \<and> game = title
         then Some ((case leaf (usage st) today title of None \<Rightarrow> 0 | Some v \<Rightarrow> v) + (now - start))
         else leaf (usage st) date game))"
  by (simp add: record_session_def leaf_add_leaf poll_def Let_def)

lemma list_all_dict_set:
  "list_all P d \<Longrightarrow> (\<And>k'. P (k', v)) \<Longrightarrow> list_all P (dict_set k v d)"
  by (induction d) auto

lemma map_of_list_all: "list_all P d \<Longrightarrow> map_of d k = Some v \<Longrightarrow> P (k, v)"
  by (induction d) (auto split: if_splits)

lemma nonneg_games_of: "nonneg u \<Longrightarrow> list_all (\<lambda>(game, v). 0 \<le> v) (games_of u date)"
  unfolding nonneg_def games_of_def
  by (auto split: option.splits dest: map_of_list_all)

lemma seconds_of_nonneg: "list_all (\<lambda>(game, v). 0 \<le> v) g \<Longrightarrow> 0 \<le> seconds_of g game"
  unfolding seconds_of_def by (auto split: option.splits dest: map_of_list_all)

lemma nonneg_add_leaf: "nonneg u \<Longrightarrow> 0 \<le> d \<Longrightarrow> nonneg (add_leaf date game d u)"
proof -
  assume u: "nonneg u" and d: "0 \<le> d"
  let ?inner = "games_of u date"
  have i: "list_all (\<lambda>(game, v). 0 \<le> v) ?inner" using u by (rule nonneg_games_of)
  then have "0 \<le> seconds_of ?inner game + d" using d seconds_of_nonneg by fastforce
  then have "list_all (\<lambda>(game, v). 0 \<le> v) (dict_set game (seconds_of ?inner game + d) ?inner)"
    using i by (intro list_all_dict_set) auto
  then show ?thesis
    using u unfolding nonneg_def add_leaf_def Let_def
    by (intro list_all_dict_set) auto
qed

lemma nonneg_set_leaf: "nonneg u \<Longrightarrow> 0 \<le> d \<Longrightarrow> nonneg (set_leaf date game d u)"
proof -
  assume u: "nonneg u" and d: "0 \<le> d"
  let ?inner = "games_of u date"
  have i: "list_all (\<lambda>(game, v). 0 \<le> v) ?inner" using u by (rule nonneg_games_of)
  then have "list_all (\<lambda>(game, v). 0 \<le> v) (dict_set game d ?inner)"
    using d by (intro list_all_dict_set) auto
  then show ?thesis
    using u unfolding nonneg_def set_leaf_def
    by (intro list_all_dict_set) auto
qed

lemma nonneg_record_session:
  "nonneg (usage st) \<Longrightarrow> 0 \<le> d \<Longrightarrow> nonneg (usage (record_session today game d st))"
  by (simp add: record_session_def nonneg_add_leaf)

lemma open_session_start: "open_session st = Some (g, s) \<Longrightarrow> start_time st = Some s"
  by (auto simp: open_session_def split: option.splits if_splits)

lemma nonneg_poll:
  assumes "nonneg (usage st)" and "\<And>s. start_time st = Some s \<Longrightarrow> s \<le> now"
  shows "nonneg (usage (poll w now today st))"
proof (cases "open_session st")
  case None
  then show ?thesis using assms(1) by (simp add: poll_def Let_def)
next
  case (Some p)
  obtain g s where p: "p = (g, s)" by (cases p)
  with Some have "start_time st = Some s" by (simp add: open_session_start)
  then have "0 \<le> now - s" using assms(2) by fastforce
  then have "nonneg (usage (record_session today g (now - s) st))"
    using assms(1) by (simp add: nonneg_record_session)
  then show ?thesis using Some p assms(1) by (simp add: poll_def Let_def)
qed

lemma usage_save_data: "usage (save_data ok st) = usage st"
  by (simp add: save_data_def)

lemma nonneg_shutdown:
  assumes "nonneg (usage st)" and "\<And>s. start_time st = Some s \<Longrightarrow> s \<le> now"
  shows "nonneg (usage (shutdown now today ok st))"
proof (cases "open_session st")
  case None
  then show ?thesis using assms(1) by (simp add: shutdown_def Let_def usage_save_data)
next
  case (Some p)
  obtain g s where p: "p = (g, s)" by (cases p)
  with Some have "start_time st = Some s" by (simp add: open_session_start)
  then have "0 \<le> now - s" using assms(2) by fastforce
  then have "nonneg (usage (record_session today g (now - s) st))"
    using assms(1) by (simp add: nonneg_record_session)
  then show ?thesis using Some p by (simp add: shutdown_def Let_def usage_save_data)
qed

lemma usage_iteration:
  "usage (fst (iteration ob (st, last_save))) = usage (poll (o_window ob) (o_now ob) (o_today ob) st)"
  by (simp add: iteration_def Let_def usage_save_data)

subsection \<open>The session state machine\<close>

lemmas eval_title = is_game_def str_def py_lower_def lower_cp_def game_keywords_def

lemma is_game_Some_only: "is_game w \<Longrightarrow> \<exists>title. w = Some title \<and> title \<noteq> []"
  by (cases w) (auto simp: is_game_def split: if_splits)


lemma open_session_game: "open_session st = Some (t, s) \<Longrightarrow> current_game st = Some t"
  by (auto simp: open_session_def split: option.splits if_splits)





text \<open>
  The hypothesis of \<open>tick_follows_table\<close> holds of the initial state, and a pass keeps
  it when its clock reading is not zero.
\<close>

lemma recognised_poll:
  assumes "current_game st = None \<or> open_session st \<noteq> None" and "now \<noteq> 0"
  shows "current_game (poll w now today st) = None \<or> open_session (poll w now today st) \<noteq> None"
proof (cases "is_game w")
  case True
  then obtain title where w: "w = Some title" "title \<noteq> []" using is_game_Some_only by blast
  show ?thesis
  proof (cases "w = current_game st")
    case True
    then show ?thesis using assms \<open>is_game w\<close> by (simp add: poll_def)
  next
    case False
    then show ?thesis using \<open>is_game w\<close> w assms(2)
      by (simp add: poll_def Let_def open_session_def)
  qed
next
  case False
  then show ?thesis using assms(1)
    by (auto simp: poll_def Let_def split: option.splits)
qed

lemma recognised_init: "current_game (init file) = None"
  by (auto simp: init_def load_data_def fresh_def split: prod.splits option.splits)


lemmas eval_poll = poll_def fresh_def Let_def open_session_def session_of_def record_session_def
  add_leaf_def games_of_def seconds_of_def

lemma steam_session_eq:
  "steam_session = \<lparr>current_game = Some (str ''Steam''), start_time = Some 1000, usage = [],
     out = [Print (Tracking (str ''Steam''))]\<rparr>"
  by (simp add: steam_session_def eval_poll eval_title)

lemma steam_open: "open_session steam_session = Some (str ''Steam'', 1000)"
  by (simp add: steam_session_eq open_session_def str_def)


text \<open>
  Claim C2 at a session of "Steam" opened at 1000 on 2024-01-01 and closed at 1060 on
  2024-01-02: the 60 seconds are under the second date, and the first holds nothing.
\<close>

theorem record_session_adds_witness:
  "open_session steam_session = Some (str ''Steam'', 1000) \<and>
   \<not> is_game (Some (str ''Notepad'')) \<and>
   leaf (usage (poll (Some (str ''Notepad'')) 1060 (str ''2024-01-02'') steam_session))
     (str ''2024-01-02'') (str ''Steam'') = Some 60 \<and>
   leaf (usage (poll (Some (str ''Notepad'')) 1060 (str ''2024-01-02'') steam_session))
     (str ''2024-01-01'') (str ''Steam'') = None"
proof -
  have n: "\<not> is_game (Some (str ''Notepad''))" by (simp add: eval_title)
  have l: "leaf (usage steam_session) d g = None" for d g
    by (simp add: steam_session_eq leaf_def)
  have d: "str ''2024-01-01'' \<noteq> str ''2024-01-02''" by (simp add: str_def)
  have c: "\<And>date game. leaf (usage (poll (Some (str ''Notepad'')) 1060 (str ''2024-01-02'') steam_session)) date game =
        (if date = str ''2024-01-02'' \<and> game = str ''Steam''
         then Some ((case leaf (usage steam_session) (str ''2024-01-02'') (str ''Steam'') of None \<Rightarrow> 0 | Some v \<Rightarrow> v) + (1060 - 1000))
         else leaf (usage steam_session) date game)"
    using record_session_adds [of "str ''2024-01-02''" "str ''Steam''" 0 steam_session _ _ 0 0 1000
        "Some (str ''Notepad'')" 1060] steam_open n
    by blast
  show ?thesis using steam_open n d by (simp add: c l)
qed

lemma flushes_append: "flushes (xs @ ys) = flushes xs + flushes ys"
  by (simp add: flushes_def)

lemma out_save_data:
  "out (save_data ok st) = out st @ [if ok then Write (dump (usage st)) else Print FailedToSave]"
  by (simp add: save_data_def)

text \<open>
  Claim C3, as amended. When \<open>shutdown\<close> runs on a state whose session the guard of line 127
  recognises, it records \<open>now - s\<close> for \<open>t\<close> under today's date (so 100 seconds more for
  the title when \<open>now = s + 100\<close>), leaves \<open>current_game\<close> and \<open>start_time\<close> as they
  were, and calls \<open>save_data\<close> exactly once, after the record: when the write succeeds,
  the document written holds the recorded duration.
\<close>

theorem shutdown_records_and_flushes_once:
  "open_session st = Some (t, s) \<Longrightarrow>
     usage (shutdown now today ok st) = add_leaf today t (now - s) (usage st) \<and>
     leaf (usage (shutdown (s + 100) today ok st)) today t =
       Some ((case leaf (usage st) today t of None \<Rightarrow> 0 | Some v \<Rightarrow> v) + 100) \<and>
     current_game (shutdown now today ok st) = Some t \<and>
     start_time (shutdown now today ok st) = Some s \<and>
     flushes (out (shutdown now today ok st)) = flushes (out st) + 1 \<and>
     out (shutdown now today True st) =
       out st @ [Write (dump (add_leaf today t (now - s) (usage st))),
                 Print (Statistics (add_leaf today t (now - s) (usage st))),
                 Print TrackerStopped]"
  by (simp add: shutdown_def Let_def record_session_def save_data_def flushes_def
      leaf_add_leaf open_session_game open_session_start)

lemma valorant_session_eq:
  "valorant_session = \<lparr>current_game = Some (str ''Valorant''), start_time = Some 1000, usage = [],
     out = [Print (Tracking (str ''Valorant''))]\<rparr>"
  by (simp add: valorant_session_def eval_poll eval_title)

lemma valorant_epoch_session_eq:
  "valorant_epoch_session = \<lparr>current_game = Some (str ''Valorant''), start_time = Some 0, usage = [],
     out = [Print (Tracking (str ''Valorant''))]\<rparr>"
  by (simp add: valorant_epoch_session_def eval_poll eval_title)

text \<open>
  Claim C3 as stated fails twice. \<open>shutdown\<close> does not go to \<open>Idle\<close>: after it the
  state still holds "Valorant". And a session whose start is \<open>0.0\<close> is not recorded.
\<close>

theorem shutdown_idle_counterexample:
  "session_of valorant_session = Active (str ''Valorant'') 1000 \<and>
   session_of (shutdown 1100 (str ''2024-01-01'') True valorant_session) \<noteq> Idle \<and>
   current_game (shutdown 1100 (str ''2024-01-01'') True valorant_session) = Some (str ''Valorant'') \<and>
   session_of valorant_epoch_session = Active (str ''Valorant'') 0 \<and>
   usage (shutdown 100 (str ''2024-01-01'') True valorant_epoch_session) = []"
  by (simp add: valorant_session_eq valorant_epoch_session_eq shutdown_def Let_def open_session_def
      session_of_def save_data_def record_session_def str_def)

text \<open>
  The amended claim C3 at a session of "Valorant" opened at 1000 and shut down at 1100.
\<close>

theorem shutdown_records_and_flushes_once_witness:
  "open_session valorant_session = Some (str ''Valorant'', 1000) \<and>
   usage (shutdown 1100 (str ''2024-01-01'') True valorant_session) =
     [(str ''2024-01-01'', [(str ''Valorant'', 100)])] \<and>
   flushes (out (shutdown 1100 (str ''2024-01-01'') True valorant_session)) = 1 \<and>
   out (shutdown 1100 (str ''2024-01-01'') True valorant_session) =
     [Print (Tracking (str ''Valorant'')),
      Write (dump [(str ''2024-01-01'', [(str ''Valorant'', 100)])]),
      Print (Statistics [(str ''2024-01-01'', [(str ''Valorant'', 100)])]),
      Print TrackerStopped]"
proof -
  have h: "open_session valorant_session = Some (str ''Valorant'', 1000)"
    by (simp add: valorant_session_eq open_session_def str_def)
  have u: "usage valorant_session = []" "out valorant_session = [Print (Tracking (str ''Valorant''))]"
    by (simp_all add: valorant_session_eq)
  have a: "add_leaf (str ''2024-01-01'') (str ''Valorant'') 100 [] =
      [(str ''2024-01-01'', [(str ''Valorant'', 100)])]"
    by (simp add: add_leaf_def games_of_def seconds_of_def)
  have f: "flushes [Print (Tracking (str ''Valorant''))] = 0" by (simp add: flushes_def)
  show ?thesis
    using h shutdown_records_and_flushes_once [OF h, of 1100 "str ''2024-01-01''" True]
    by (simp add: u a f flushes_def)
qed

text \<open>
  Claim C8. If every duration of the store is at least zero and the clock reading is not
  earlier than the start of the session the state holds, then the store is still so after a
  tick (the session logic alone, and the whole pass with its automatic save) and after
  \<open>shutdown\<close>; and \<open>record_session\<close> keeps it so when the duration it is given is at
  least zero.
\<close>

theorem durations_stay_nonneg:
  assumes "nonneg (usage st)" and "\<forall>s. start_time st = Some s \<longrightarrow> s \<le> now" and "0 \<le> duration"
  shows "nonneg (usage (record_session today game duration st)) \<and>
         nonneg (usage (poll w now today st)) \<and>
         nonneg (usage (fst (iteration
            \<lparr>o_window = w, o_now = now, o_today = today, o_io_ok = ok\<rparr> (st, last_save)))) \<and>
         nonneg (usage (shutdown now today ok st))"
  using assms by (simp add: nonneg_record_session nonneg_poll nonneg_shutdown usage_iteration)

text \<open>Claim C8 at a session of "Steam" opened at 1000 and closed at 1060.\<close>

theorem durations_stay_nonneg_witness:
  "nonneg (usage steam_session) \<and>
   (\<exists>s. start_time steam_session = Some s \<and> s \<le> 1060) \<and>
   nonneg (usage (record_session (str ''2024-01-01'') (str ''Steam'') 60 steam_session)) \<and>
   nonneg (usage (poll (Some (str ''Notepad'')) 1060 (str ''2024-01-01'') steam_session)) \<and>
   usage (poll (Some (str ''Notepad'')) 1060 (str ''2024-01-01'') steam_session) =
     [(str ''2024-01-01'', [(str ''Steam'', 60)])] \<and>
   nonneg (usage (shutdown 1060 (str ''2024-01-01'') True steam_session))"
proof -
  have a: "nonneg (usage steam_session)" by (simp add: steam_session_eq nonneg_def)
  have b: "\<forall>s. start_time steam_session = Some s \<longrightarrow> s \<le> 1060"
    by (simp add: steam_session_eq)
  have c: "(0::real) \<le> 60" by simp
  have e: "\<exists>s. start_time steam_session = Some s \<and> s \<le> 1060" by (simp add: steam_session_eq)
  have u: "usage (poll (Some (str ''Notepad'')) 1060 (str ''2024-01-01'') steam_session) =
     [(str ''2024-01-01'', [(str ''Steam'', 60)])]"
    by (simp add: steam_session_eq poll_def Let_def open_session_def record_session_def
        add_leaf_def games_of_def seconds_of_def eval_title)
  show ?thesis
    using a e u durations_stay_nonneg [OF a b c, of "str ''2024-01-01''" "str ''Steam''"
        "Some (str ''Notepad'')" True 0]
    by simp
qed

text \<open>
  Claim C10. \<open>is_game\<close> is true of the title "Microsoft Teams": the one keyword found in
  "microsoft teams" is "ea". So a tick that sees this window opens a session for it, and the
  time until the window changes is recorded under that title.
\<close>

theorem microsoft_teams_is_game:
  "is_game (Some (str ''Microsoft Teams'')) \<and>
   filter (\<lambda>keyword. contains keyword (py_lower (str ''Microsoft Teams''))) game_keywords = [str ''ea''] \<and>
   current_game (poll (Some (str ''Microsoft Teams'')) now today fresh) = Some (str ''Microsoft Teams'') \<and>
   start_time (poll (Some (str ''Microsoft Teams'')) now today fresh) = Some now \<and>
   usage (poll (Some (str ''Notepad'')) 1060 (str ''2024-01-01'')
      (poll (Some (str ''Microsoft Teams'')) 1000 (str ''2024-01-01'') fresh)) =
     [(str ''2024-01-01'', [(str ''Microsoft Teams'', 60)])]"
proof -
  have g: "is_game (Some (str ''Microsoft Teams''))" by (simp add: eval_title)
  have f: "filter (\<lambda>keyword. contains keyword (py_lower (str ''Microsoft Teams''))) game_keywords = [str ''ea'']"
    by (simp add: eval_title)
  have n: "\<not> is_game (Some (str ''Notepad''))" by (simp add: eval_title)
  have t: "str ''Microsoft Teams'' \<noteq> []" by (simp add: str_def)
  have p: "poll (Some (str ''Microsoft Teams'')) x d fresh =
      \<lparr>current_game = Some (str ''Microsoft Teams''), start_time = Some x, usage = [],
       out = [Print (Tracking (str ''Microsoft Teams''))]\<rparr>" for x d
    using g by (simp add: poll_def fresh_def Let_def open_session_def)
  have u: "usage (poll (Some (str ''Notepad'')) 1060 (str ''2024-01-01'')
      (poll (Some (str ''Microsoft Teams'')) 1000 (str ''2024-01-01'') fresh)) =
     [(str ''2024-01-01'', [(str ''Microsoft Teams'', 60)])]"
    unfolding p using n t
    by (simp add: poll_def Let_def open_session_def record_session_def add_leaf_def games_of_def seconds_of_def)
  show ?thesis using g f u by (simp add: p)
qed

text \<open>
  A whole run, from the specification's scenarios: no window at 0, "Steam - CS:GO" at 15
  and at 30, "Notepad" at 45, the interrupt at 60, with no data file at the start. One
  session of 30 seconds is recorded, and the store is saved once.
\<close>

lemma track_scenario:
  "usage (track 0
      [seen None 0, seen (Some (str ''Steam - CS:GO'')) 15,
       seen (Some (str ''Steam - CS:GO'')) 30, seen (Some (str ''Notepad'')) 45]
      (seen None 60) (init Missing)) =
     [(str ''2024-01-01'', [(str ''Steam - CS:GO'', 30)])] \<and>
   flushes (out (track 0
      [seen None 0, seen (Some (str ''Steam - CS:GO'')) 15,
       seen (Some (str ''Steam - CS:GO'')) 30, seen (Some (str ''Notepad'')) 45]
      (seen None 60) (init Missing))) = 1"
proof -
  have g: "is_game (Some (str ''Steam - CS:GO''))" by (simp add: eval_title)
  have n: "\<not> is_game (Some (str ''Notepad''))" by (simp add: eval_title)
  have e: "str ''Steam - CS:GO'' \<noteq> []" by (simp add: str_def)
  have i: "\<not> is_game None" by (simp add: is_game_def)
  show ?thesis
    using g n e i
    by (simp add: track_def iteration_def seen_def init_def load_data_def fresh_def poll_def
        Let_def open_session_def record_session_def add_leaf_def games_of_def seconds_of_def
        shutdown_def save_data_def flushes_def)
qed

subsection \<open>Loading and saving\<close>

lemma dump_json_of: "dump d = Object (json_of d)"
  by (simp add: dump_def json_of_def)

lemma leaf_load_games:
  "distinct (map fst g) \<Longrightarrow>
     leaf (load_games date g u) d t =
       (if d = date then (case map_of g t of Some v \<Rightarrow> Some v | None \<Rightarrow> leaf u d t)
        else leaf u d t)"
proof (induction g arbitrary: u)
  case Nil
  then show ?case by simp
next
  case (Cons p rest)
  obtain game v where p: "p = (game, v)" by (cases p)
  from Cons.prems p have n: "map_of rest game = None" and dr: "distinct (map fst rest)"
    by (auto simp: map_of_eq_None_iff)
  show ?case
    using Cons.IH [OF dr, of "set_leaf date game v u"] n
    by (auto simp: p leaf_set_leaf split: option.splits)
qed

lemma leaf_absent: "date \<notin> fst ` set d \<Longrightarrow> leaf d date t = None"
proof -
  assume "date \<notin> fst ` set d"
  then have "map_of d date = None" by (simp add: map_of_eq_None_iff)
  then show ?thesis by (simp add: leaf_def)
qed

lemma leaf_Cons:
  "leaf ((date, g) # d) x t = (if x = date then map_of g t else leaf d x t)"
  by (simp add: leaf_def)

lemma load_items_json_of:
  "well_formed d \<Longrightarrow>
     fst (load_items (json_of d) u) = None \<and>
     leaf (snd (load_items (json_of d) u)) date t =
       (case leaf d date t of Some v \<Rightarrow> Some v | None \<Rightarrow> leaf u date t)"
proof (induction d arbitrary: u)
  case Nil
  then show ?case by (simp add: json_of_def leaf_def)
next
  case (Cons p rest)
  obtain x g where p: "p = (x, g)" by (cases p)
  from Cons.prems p have wf: "well_formed rest" and dg: "distinct (map fst g)"
    and nx: "x \<notin> fst ` set rest"
    by (auto simp: well_formed_def)
  have step: "load_items (json_of ((x, g) # rest)) u = load_items (json_of rest) (load_games x g u)"
    by (simp add: json_of_def)
  have absent: "leaf rest x t = None" using nx by (rule leaf_absent)
  note ih = Cons.IH [OF wf, of "load_games x g u"]
  have "leaf (snd (load_items (json_of rest) (load_games x g u))) date t =
      (case leaf ((x, g) # rest) date t of Some v \<Rightarrow> Some v | None \<Rightarrow> leaf u date t)"
  proof (cases "date = x")
    case True
    then show ?thesis
      using ih absent by (auto simp: leaf_Cons leaf_load_games [OF dg])
  next
    case False
    then show ?thesis
      using ih by (auto simp: leaf_Cons leaf_load_games [OF dg] split: option.splits)
  qed
  then show ?case using ih by (simp add: p step)
qed

lemma usage_load_data_doc:
  "usage (load_data (Decoded (dump d)) st) = snd (load_items (json_of d) (usage st))"
  by (auto simp: load_data_def dump_json_of split: prod.splits option.splits)

lemma out_load_data_doc:
  "well_formed d \<Longrightarrow> out (load_data (Decoded (dump d)) st) = out st"
  using load_items_json_of [of d "usage st"]
  by (auto simp: load_data_def dump_json_of split: prod.splits option.splits)

lemma leaf_load_data:
  "well_formed d \<Longrightarrow>
     leaf (usage (load_data (Decoded (dump d)) st)) date t =
       (case leaf d date t of Some v \<Rightarrow> Some v | None \<Rightarrow> leaf (usage st) date t)"
  by (simp add: usage_load_data_doc load_items_json_of)

lemma dict_set_new: "k \<notin> fst ` set d \<Longrightarrow> dict_set k v d = d @ [(k, v)]"
  by (induction d) auto

lemma dict_set_last: "k \<notin> fst ` set d \<Longrightarrow> dict_set k v (d @ [(k, w)]) = d @ [(k, v)]"
  by (induction d) auto

lemma map_of_last: "k \<notin> fst ` set d \<Longrightarrow> map_of (d @ [(k, w)]) k = Some w"
  by (induction d) auto

lemma games_of_last: "date \<notin> fst ` set u \<Longrightarrow> games_of (u @ [(date, acc)]) date = acc"
  by (simp add: games_of_def map_of_last del: map_of_append)

lemma games_of_absent: "date \<notin> fst ` set u \<Longrightarrow> games_of u date = []"
proof -
  assume "date \<notin> fst ` set u"
  then have "map_of u date = None" by (simp add: map_of_eq_None_iff)
  then show ?thesis by (simp add: games_of_def)
qed

lemma load_games_append:
  "date \<notin> fst ` set u \<Longrightarrow> distinct (map fst (acc @ rest)) \<Longrightarrow>
     load_games date rest (u @ [(date, acc)]) = u @ [(date, acc @ rest)]"
proof (induction rest arbitrary: acc)
  case Nil
  then show ?case by simp
next
  case (Cons p rest)
  obtain game v where p: "p = (game, v)" by (cases p)
  from Cons.prems p have g: "game \<notin> fst ` set acc" by auto
  have s: "set_leaf date game v (u @ [(date, acc)]) = u @ [(date, acc @ [(game, v)])]"
    using Cons.prems(1) g
    by (simp add: set_leaf_def games_of_last dict_set_last dict_set_new)
  have d: "distinct (map fst ((acc @ [(game, v)]) @ rest))" using Cons.prems(2) p by simp
  show ?case
    using Cons.IH [OF Cons.prems(1) d] by (simp add: p s)
qed

lemma load_games_fresh_date:
  assumes "date \<notin> fst ` set u" and "distinct (map fst g)"
  shows "load_games date g u = u @ filter (\<lambda>(date, g). g \<noteq> []) [(date, g)]"
proof (cases g)
  case Nil
  then show ?thesis by simp
next
  case (Cons p rest)
  obtain game v where p: "p = (game, v)" by (cases p)
  have s: "set_leaf date game v u = u @ [(date, [(game, v)])]"
    using assms(1) by (simp add: set_leaf_def games_of_absent dict_set_new)
  have d: "distinct (map fst ([(game, v)] @ rest))" using assms(2) Cons p by simp
  show ?thesis
    using load_games_append [OF assms(1) d] by (simp add: Cons p s)
qed

lemma load_items_fresh_dates:
  "well_formed d \<Longrightarrow> fst ` set d \<inter> fst ` set u = {} \<Longrightarrow>
     load_items (json_of d) u = (None, u @ filter (\<lambda>(date, g). g \<noteq> []) d)"
proof (induction d arbitrary: u)
  case Nil
  then show ?case by (simp add: json_of_def)
next
  case (Cons p rest)
  obtain x g where p: "p = (x, g)" by (cases p)
  from Cons.prems p have wf: "well_formed rest" and dg: "distinct (map fst g)"
    and nx: "x \<notin> fst ` set rest" and nu: "x \<notin> fst ` set u"
    and dis: "fst ` set rest \<inter> fst ` set u = {}"
    by (auto simp: well_formed_def)
  let ?u = "u @ filter (\<lambda>(date, g). g \<noteq> []) [(x, g)]"
  have lg: "load_games x g u = ?u" using nu dg by (rule load_games_fresh_date)
  have "fst ` set rest \<inter> fst ` set ?u = {}" using dis nx by auto
  from Cons.IH [OF wf this] show ?case
    by (simp add: p json_of_def lg)
qed

lemma usage_init_doc:
  "well_formed d \<Longrightarrow> usage (init (Decoded (dump d))) = filter (\<lambda>(date, g). g \<noteq> []) d"
  by (simp add: init_def usage_load_data_doc load_items_fresh_dates fresh_def)

lemma entries_filter: "entries (filter (\<lambda>(date, g). g \<noteq> []) d) = entries d"
  by (induction d) (auto simp: entries_def)

lemma filter_all: "list_all P d \<Longrightarrow> filter P d = d"
  by (induction d) auto

text \<open>
  Claim C5. Loading a well-formed document assigns: after \<open>load_data\<close>, a leaf the
  document has holds the document's value, whatever the store held there before, and every
  other leaf is as it was; loaded into the empty store of \<open>__init__\<close>, the leaves are the
  document's. So from the data file with 120 seconds of "Dota 2" on 2024-01-01, recording 60
  seconds of "Dota 2" on 2024-01-02 and saving writes exactly these two leaves.
\<close>

theorem load_replaces_leaves:
  "well_formed d \<Longrightarrow>
     leaf (usage (load_data (Decoded (dump d)) st)) date game =
       (case leaf d date game of Some v \<Rightarrow> Some v | None \<Rightarrow> leaf (usage st) date game) \<and>
     leaf (usage (init (Decoded (dump d)))) date game = leaf d date game \<and>
     out (save_data True
        (record_session (str ''2024-01-02'') (str ''Dota 2'') 60 (init (Decoded (dump dota_store))))) =
       [Write (dump [(str ''2024-01-01'', [(str ''Dota 2'', 120)]),
                     (str ''2024-01-02'', [(str ''Dota 2'', 60)])])]"
proof -
  assume wf: "well_formed d"
  have e: "leaf (usage fresh) date game = None" by (simp add: fresh_def leaf_def)
  have a: "leaf (usage (init (Decoded (dump d)))) date game = leaf d date game"
    unfolding init_def leaf_load_data [OF wf] e by (cases "leaf d date game") simp_all
  have w: "well_formed dota_store" by (simp add: dota_store_def well_formed_def)
  have u: "usage (init (Decoded (dump dota_store))) = [(str ''2024-01-01'', [(str ''Dota 2'', 120)])]"
    by (simp add: usage_init_doc [OF w]) (simp add: dota_store_def)
  have o: "out (init (Decoded (dump dota_store))) = []"
    by (simp add: init_def out_load_data_doc [OF w] fresh_def)
  have n: "str ''2024-01-01'' \<noteq> str ''2024-01-02''" by (simp add: str_def)
  have s: "out (save_data True
        (record_session (str ''2024-01-02'') (str ''Dota 2'') 60 (init (Decoded (dump dota_store))))) =
       [Write (dump [(str ''2024-01-01'', [(str ''Dota 2'', 120)]),
                     (str ''2024-01-02'', [(str ''Dota 2'', 60)])])]"
    using n by (simp add: save_data_def record_session_def u o add_leaf_def games_of_def
        seconds_of_def Let_def)
  show ?thesis using wf a s by (simp add: leaf_load_data)
qed

text \<open>
  Claim C5 at a store that already holds 50 seconds where the document has 120: the leaf is
  120 afterwards, not 170.
\<close>

theorem load_replaces_leaves_witness:
  "well_formed dota_store \<and>
   leaf [(str ''2024-01-01'', [(str ''Dota 2'', 50)])] (str ''2024-01-01'') (str ''Dota 2'') = Some 50 \<and>
   leaf (usage (load_data (Decoded (dump dota_store))
      (fresh\<lparr>usage := [(str ''2024-01-01'', [(str ''Dota 2'', 50)])]\<rparr>)))
      (str ''2024-01-01'') (str ''Dota 2'') = Some 120 \<and>
   leaf (usage (init (Decoded (dump dota_store)))) (str ''2024-01-01'') (str ''Dota 2'') = Some 120"
proof -
  have w: "well_formed dota_store" by (simp add: dota_store_def well_formed_def)
  have l: "leaf dota_store (str ''2024-01-01'') (str ''Dota 2'') = Some 120"
    by (simp add: dota_store_def leaf_def)
  have e: "leaf [(str ''2024-01-01'', [(str ''Dota 2'', 50)])] (str ''2024-01-01'') (str ''Dota 2'') = Some 50"
    by (simp add: leaf_def)
  show ?thesis
    using w e l load_replaces_leaves [OF w,
        of "fresh\<lparr>usage := [(str ''2024-01-01'', [(str ''Dota 2'', 50)])]\<rparr>"
           "str ''2024-01-01''" "str ''Dota 2''"]
    by simp
qed

text \<open>
  Claim C7. Saving right after loading a well-formed document writes the document without
  the dates that have no title under them (the loader never touches such a date), so the
  (date, title, seconds) entries written are those of the original; when every date has a
  title, the document written is the original one.
\<close>

theorem load_then_save_roundtrip:
  "well_formed d \<Longrightarrow>
     usage (init (Decoded (dump d))) = filter (\<lambda>(date, g). g \<noteq> []) d \<and>
     out (save_data True (init (Decoded (dump d)))) =
       [Write (dump (filter (\<lambda>(date, g). g \<noteq> []) d))] \<and>
     set (entries (filter (\<lambda>(date, g). g \<noteq> []) d)) = set (entries d) \<and>
     (list_all (\<lambda>(date, g). g \<noteq> []) d \<longrightarrow>
        out (save_data True (init (Decoded (dump d)))) = [Write (dump d)])"
proof -
  assume wf: "well_formed d"
  have u: "usage (init (Decoded (dump d))) = filter (\<lambda>(date, g). g \<noteq> []) d"
    using wf by (rule usage_init_doc)
  have o: "out (init (Decoded (dump d))) = []"
    by (simp add: init_def out_load_data_doc [OF wf] fresh_def)
  have s: "out (save_data True (init (Decoded (dump d)))) =
       [Write (dump (filter (\<lambda>(date, g). g \<noteq> []) d))]"
    by (simp add: save_data_def u o)
  show ?thesis using u s by (auto simp: entries_filter filter_all)
qed

text \<open>Claim C7 at a document with two leaves under one date and an empty second date.\<close>

theorem load_then_save_roundtrip_witness:
  "well_formed sparse_store \<and>
   out (save_data True (init (Decoded (dump sparse_store)))) =
     [Write (dump [(str ''2024-01-01'', [(str ''Dota 2'', 120), (str ''Steam'', 30)])])] \<and>
   entries [(str ''2024-01-01'', [(str ''Dota 2'', 120), (str ''Steam'', 30)])] =
     [(str ''2024-01-01'', str ''Dota 2'', 120), (str ''2024-01-01'', str ''Steam'', 30)] \<and>
   entries sparse_store =
     [(str ''2024-01-01'', str ''Dota 2'', 120), (str ''2024-01-01'', str ''Steam'', 30)]"
proof -
  have w: "well_formed sparse_store" by (simp add: sparse_store_def well_formed_def str_def)
  have f: "filter (\<lambda>(date, g). g \<noteq> []) sparse_store =
      [(str ''2024-01-01'', [(str ''Dota 2'', 120), (str ''Steam'', 30)])]"
    by (simp add: sparse_store_def)
  have e: "entries sparse_store =
     [(str ''2024-01-01'', str ''Dota 2'', 120), (str ''2024-01-01'', str ''Steam'', 30)]"
    by (simp add: sparse_store_def entries_def)
  have e': "entries [(str ''2024-01-01'', [(str ''Dota 2'', 120), (str ''Steam'', 30)])] =
     [(str ''2024-01-01'', str ''Dota 2'', 120), (str ''2024-01-01'', str ''Steam'', 30)]"
    by (simp add: entries_def)
  show ?thesis using w e e' load_then_save_roundtrip [OF w] by (simp add: f)
qed




end
